theory Spec2Isabelle
  imports Complex_Main "HOL-Library.Multiset" "HOL-Library.List_Lexorder" "HOL-Library.Char_ord"
    "HOL-Library.Log_Nat"
begin

section \<open>JavaScript values of the front end\<close>

text \<open>
  A JavaScript number is modelled as the real number it stands for (no NaN, no
  infinities), a string as a \<open>string\<close>, and a property that may be \<open>undefined\<close> or
  \<open>null\<close> as an \<open>option\<close>. Numbers are IEEE 754 doubles: comparing and copying
  them is exact, and the result of an arithmetic operation is the exact result
  rounded to the nearest double (\<open>toDouble\<close> below).

  \<open>x || d\<close> yields \<open>d\<close> when \<open>x\<close> is falsy. The falsy values of the types used here are
  \<open>undefined\<close>, \<open>null\<close>, the number \<open>0\<close>, the empty string and \<open>false\<close>.
\<close>

definition orNum :: "real option \<Rightarrow> real \<Rightarrow> real" where
  "orNum x d = (case x of None \<Rightarrow> d | Some v \<Rightarrow> if v = 0 then d else v)"

definition orStr :: "string option \<Rightarrow> string \<Rightarrow> string" where
  "orStr x d = (case x of None \<Rightarrow> d | Some s \<Rightarrow> if s = [] then d else s)"

definition orBool :: "bool option \<Rightarrow> bool \<Rightarrow> bool" where
  "orBool x d = (case x of None \<Rightarrow> d | Some b \<Rightarrow> if b then b else d)"

text \<open>\<open>options?.field\<close>: \<open>undefined\<close> when \<open>options\<close> itself is missing.\<close>

definition optField :: "'o option \<Rightarrow> ('o \<Rightarrow> 'a option) \<Rightarrow> 'a option" where
  "optField opts field = (case opts of None \<Rightarrow> None | Some r \<Rightarrow> field r)"

text \<open>
  \<open>s.replace(pat, rep)\<close> with a string pattern replaces the first occurrence of
  \<open>pat\<close> only.
\<close>

fun replaceFirst :: "string \<Rightarrow> string \<Rightarrow> string \<Rightarrow> string" where
  "replaceFirst pat rep [] = (if pat = [] then rep else [])"
| "replaceFirst pat rep (c # cs) =
     (if take (length pat) (c # cs) = pat then rep @ drop (length pat) (c # cs)
      else c # replaceFirst pat rep cs)"

subsection \<open>Arithmetic on doubles\<close>

text \<open>
  A double has a significand of 53 bits. For a positive \<open>x\<close>, \<open>exponentOf x\<close> is the
  exponent \<open>e\<close> of the power of two with \<open>2 powi e \<le> x < 2 powi (e + 1)\<close>. The doubles
  around \<open>x\<close> are the multiples of \<open>ulp x\<close>, which is \<open>2 powi (e - 52)\<close> and, for
  the subnormal numbers below \<open>2 powi (- 1022)\<close>, stays \<open>2 powi (- 1074)\<close>.
  \<open>toDouble\<close> rounds to the nearest of them, and a tie to the one with the even
  significand. A result beyond the largest double would be an infinity; no
  operation modelled here reaches it for the numbers of a product.
\<close>

definition roundHalfEven :: "real \<Rightarrow> int" where
  "roundHalfEven x =
     (let f = \<lfloor>x\<rfloor>
      in if x - of_int f < 1/2 then f
         else if 1/2 < x - of_int f then f + 1
         else if even f then f else f + 1)"

definition exponentOf :: "real \<Rightarrow> int" where
  "exponentOf x = (if 1 \<le> x then bitlen \<lfloor>x\<rfloor> - 1 else - bitlen (\<lceil>1 / x\<rceil> - 1))"

definition ulp :: "real \<Rightarrow> real" where
  "ulp x = 2 powi (max (exponentOf \<bar>x\<bar>) (- 1022) - 52)"

definition toDouble :: "real \<Rightarrow> real" where
  "toDouble x = (if x = 0 then 0 else of_int (roundHalfEven (x / ulp x)) * ulp x)"

text \<open>\<open>a / b\<close> for a divisor that is not zero, \<open>a - b\<close> and \<open>a * b\<close>.\<close>

definition jsDiv :: "real \<Rightarrow> real \<Rightarrow> real" where
  "jsDiv a b = toDouble (a / b)"

definition jsSub :: "real \<Rightarrow> real \<Rightarrow> real" where
  "jsSub a b = toDouble (a - b)"

definition jsMul :: "real \<Rightarrow> real \<Rightarrow> real" where
  "jsMul a b = toDouble (a * b)"

section \<open>The API client (\<open>lib/api.ts\<close>)\<close>

text \<open>
  \<open>FashionItem\<close>. The interface declares \<open>id\<close>, \<open>name\<close>, \<open>image_url\<close> and
  \<open>scraped_at\<close> as strings; they are options here because the generator page builds
  items from untyped database rows and passes \<open>item.id\<close>, \<open>item.name\<close> and
  \<open>item.image_url\<close> through unchanged and sets no \<open>scraped_at\<close>. The field \<open>id\<close> is
  named \<open>item_id\<close>. \<open>trend_level\<close> is the string the interface restricts to four
  literals.
\<close>

record FashionItem =
  item_id :: "string option"
  name :: "string option"
  price :: real
  currency :: string
  original_price :: "real option"
  image_url :: "string option"
  local_image_path :: "string option"
  product_url :: string
  category :: string
  brand :: string
  reviews_count :: real
  rating :: real
  sales_count :: real
  trend_score :: real
  trend_level :: string
  colors :: "string list"
  tags :: "string list"
  scraped_at :: "string option"

definition trendLevels :: "string list" where
  "trendLevels = [''hot'', ''rising'', ''stable'', ''declining'']"

record ColorPalette =
  primary :: string
  secondary :: "string option"
  accent :: "string option"

text \<open>The options of \<open>generator.generate\<close> and the JSON body it posts.\<close>

record GenerateOptions =
  gen_style :: "string option"
  variationStrength :: "real option"
  numVariations :: "real option"
  colorPalette :: "ColorPalette option"
  promptAdditions :: "string option"

record GenerateBody =
  gen_source_image_id :: string
  gen_body_style :: string
  variation_strength :: real
  num_variations :: real
  color_palette :: "ColorPalette option"
  prompt_additions :: "string option"

definition generateBody :: "string \<Rightarrow> GenerateOptions option \<Rightarrow> GenerateBody" where
  "generateBody sourceImageId options =
     \<lparr> gen_source_image_id = sourceImageId,
       gen_body_style = orStr (optField options gen_style) ''minimalist'',
       variation_strength = orNum (optField options variationStrength) (1/2),
       num_variations = orNum (optField options numVariations) 4,
       color_palette = optField options colorPalette,
       prompt_additions = optField options promptAdditions \<rparr>"

text \<open>The options of \<open>converter.convert\<close> and the JSON body it posts.\<close>

record ConvertOptions =
  conv_style :: "string option"
  detailLevel :: "real option"
  lineThickness :: "real option"
  includeMeasurements :: "bool option"

record ConvertBody =
  conv_source_image_id :: string
  conv_body_style :: string
  detail_level :: real
  line_thickness :: real
  include_measurements :: bool

definition convertBody :: "string \<Rightarrow> ConvertOptions option \<Rightarrow> ConvertBody" where
  "convertBody sourceImageId options =
     \<lparr> conv_source_image_id = sourceImageId,
       conv_body_style = orStr (optField options conv_style) ''technical'',
       detail_level = orNum (optField options detailLevel) (1/2),
       line_thickness = orNum (optField options lineThickness) 1,
       include_measurements = orBool (optField options includeMeasurements) False \<rparr>"

section \<open>The generator page: database rows to \<open>FashionItem\<close>\<close>

text \<open>
  A row of \<open>/api/generator/items-from-db\<close> (typed \<open>any\<close> in the source): the
  properties \<open>loadData\<close> reads, each possibly missing.
\<close>

record DbItem =
  db_id :: "string option"
  db_name :: "string option"
  db_price :: "real option"
  db_image_url :: "string option"
  db_product_url :: "string option"
  db_category :: "string option"
  db_brand :: "string option"
  db_source :: "string option"

definition toFashionItem :: "DbItem \<Rightarrow> FashionItem" where
  "toFashionItem item =
     \<lparr> item_id = db_id item,
       name = db_name item,
       price = orNum (db_price item) 0,
       currency = ''USD'',
       original_price = None,
       image_url = db_image_url item,
       local_image_path = None,
       product_url = orStr (db_product_url item) '''',
       category = orStr (db_category item) ''other'',
       brand = orStr (db_brand item) (orStr (db_source item) ''''),
       reviews_count = 0,
       rating = 0,
       sales_count = 0,
       trend_score = 50,
       trend_level = ''stable'',
       colors = [],
       tags = [],
       scraped_at = None \<rparr>"

text \<open>The row in which every property is missing.\<close>

definition emptyDbItem :: DbItem where
  "emptyDbItem =
     \<lparr> db_id = None, db_name = None, db_price = None, db_image_url = None,
       db_product_url = None, db_category = None, db_brand = None, db_source = None \<rparr>"

section \<open>The discount badge (\<open>ImageGallery\<close>, \<open>TrendCard.formatPrice\<close>)\<close>

text \<open>
  Both components show \<open>Math.round((1 - price / original_price) * 100)\<close> when
  \<open>original_price\<close> is truthy and greater than \<open>price\<close>, and no badge otherwise.
  The quotient, the difference and the product are operations on doubles.
  \<open>Math.round\<close> rounds the double it is given to the nearest integer, a half
  upwards, as \<^const>\<open>round\<close> does.
\<close>

definition discountBadge :: "FashionItem \<Rightarrow> int option" where
  "discountBadge item =
     (case original_price item of
        None \<Rightarrow> None
      | Some op \<Rightarrow>
          if op \<noteq> 0 \<and> op > price item
          then Some (round (jsMul (jsSub 1 (jsDiv (price item) op)) 100))
          else None)"

section \<open>The scanner page and the discovery page: presenting score and level\<close>

text \<open>
  \<open>getTrendBadgeClass\<close> of the scanner page: a \<open>switch\<close> on the level with a
  \<open>default\<close> branch for any other string.
\<close>

definition getTrendBadgeClass :: "string \<Rightarrow> string" where
  "getTrendBadgeClass level =
     (if level = ''hot'' then ''trend-hot''
      else if level = ''rising'' then ''trend-rising''
      else if level = ''stable'' then ''trend-stable''
      else if level = ''declining'' then ''trend-declining''
      else ''trend-stable'')"

text \<open>
  \<open>getDirectionBadge\<close> of the discovery page. The direction is a string received
  with each trend; the page does not compute it. The badge text is given without
  its leading pictograph.
\<close>

record Badge =
  badge_text :: string
  badge_cls :: string

definition getDirectionBadge :: "string \<Rightarrow> Badge" where
  "getDirectionBadge direction =
     (if direction = ''hot'' then \<lparr> badge_text = ''Hot'', badge_cls = ''bg-red-500/20 text-red-400'' \<rparr>
      else if direction = ''rising''
        then \<lparr> badge_text = ''Rising'', badge_cls = ''bg-emerald-500/20 text-emerald-400'' \<rparr>
      else if direction = ''declining''
        then \<lparr> badge_text = ''Declining'', badge_cls = ''bg-amber-500/20 text-amber-400'' \<rparr>
      else \<lparr> badge_text = ''Stable'', badge_cls = ''bg-blue-500/20 text-blue-400'' \<rparr>)"

text \<open>The colour of the score bar of a trend item on the discovery page.\<close>

definition scoreBarClass :: "real \<Rightarrow> string" where
  "scoreBarClass score =
     (if score \<ge> 85 then ''bg-red-500''
      else if score \<ge> 75 then ''bg-orange-500''
      else if score \<ge> 65 then ''bg-yellow-500''
      else ''bg-blue-500'')"

section \<open>The trends page: entries sorted by count\<close>

text \<open>
  \<open>Object.entries(summary.by_source).sort((a, b) => b[1] - a[1])\<close>, and the same for
  \<open>by_category\<close>. The argument is the list \<open>Object.entries\<close> returns.
  \<open>Array.prototype.sort\<close> is stable, and the comparator orders two entries by their
  counts alone, the larger first: a stable sort on the negated count.
\<close>

definition sortEntries :: "(string \<times> int) list \<Rightarrow> (string \<times> int) list" where
  "sortEntries entries = sort_key (\<lambda>e. - snd e) entries"

text \<open>
  The order of the spec's words, for comparison with the sort above: the larger
  count first, and of two entries with the same count the one whose name comes
  first. An entry of \<open>by_source\<close> or \<open>by_category\<close> has no average trend score, so
  the spec's middle criterion has nothing to compare.
\<close>

definition specEntryOrder :: "string \<times> int \<Rightarrow> string \<times> int \<Rightarrow> bool" where
  "specEntryOrder a b \<longleftrightarrow> snd a > snd b \<or> (snd a = snd b \<and> fst a \<le> fst b)"

section \<open>The trending page: fallback grouping by source\<close>

record Product =
  p_id :: string
  p_name :: string
  p_price :: real
  p_source :: "string option"
  p_image_url :: string
  p_product_url :: string
  p_category :: "string option"
  p_brand :: "string option"

record BrandGroup =
  brand_name :: string
  total_count :: nat
  products :: "Product list"

datatype js_error = TypeError

text \<open>
  \<open>grouped\<close> is an object literal used as a dictionary: its own properties, in the
  order of their creation, are an association list. A property name that
  \<open>Object.prototype\<close> provides is found on \<open>grouped\<close> without having been stored there.
\<close>

type_synonym grouped = "(string \<times> BrandGroup) list"

definition objectPrototypeKeys :: "string list" where
  "objectPrototypeKeys =
     [''constructor'', ''__proto__'', ''hasOwnProperty'', ''isPrototypeOf'',
      ''propertyIsEnumerable'', ''toLocaleString'', ''toString'', ''valueOf'',
      ''__defineGetter__'', ''__defineSetter__'', ''__lookupGetter__'', ''__lookupSetter__'']"

text \<open>\<open>p.source || 'unknown'\<close>\<close>

definition sourceOf :: "Product \<Rightarrow> string" where
  "sourceOf p = orStr (p_source p) ''unknown''"

text \<open>\<open>!grouped[source]\<close> is false for an own group and for an inherited property.\<close>

definition hasProperty :: "grouped \<Rightarrow> string \<Rightarrow> bool" where
  "hasProperty grouped source =
     (map_of grouped source \<noteq> None \<or> source \<in> set objectPrototypeKeys)"

definition newGroup :: "string \<Rightarrow> BrandGroup" where
  "newGroup source =
     \<lparr> brand_name = replaceFirst ''www.'' '''' (replaceFirst ''.com'' '''' source),
       total_count = 0,
       products = [] \<rparr>"

fun setProperty :: "grouped \<Rightarrow> string \<Rightarrow> BrandGroup \<Rightarrow> grouped" where
  "setProperty [] k v = [(k, v)]"
| "setProperty ((k', v') # rest) k v =
     (if k' = k then (k, v) # rest else (k', v') # setProperty rest k v)"

text \<open>
  The two statements after the creation of the group: push the product while the
  group holds fewer than ten, then count it.
\<close>

definition addProduct :: "Product \<Rightarrow> BrandGroup \<Rightarrow> BrandGroup" where
  "addProduct p g =
     (let g1 = (if length (products g) < 10 then g\<lparr>products := products g @ [p]\<rparr> else g)
      in g1\<lparr>total_count := Suc (total_count g1)\<rparr>)"

text \<open>
  One iteration of the loop. When \<open>grouped[source]\<close> is an inherited property, no
  group is created, \<open>grouped[source].products\<close> is \<open>undefined\<close> and reading its
  \<open>length\<close> throws.
\<close>

definition groupStep :: "grouped \<Rightarrow> Product \<Rightarrow> js_error + grouped" where
  "groupStep grouped p =
     (let source = sourceOf p;
          grouped1 = (if hasProperty grouped source then grouped
                      else setProperty grouped source (newGroup source))
      in case map_of grouped1 source of
           None \<Rightarrow> Inl TypeError
         | Some g \<Rightarrow> Inr (setProperty grouped1 source (addProduct p g)))"

fun groupLoop :: "grouped \<Rightarrow> Product list \<Rightarrow> js_error + grouped" where
  "groupLoop grouped [] = Inr grouped"
| "groupLoop grouped (p # ps) =
     (case groupStep grouped p of
        Inl e \<Rightarrow> Inl e
      | Inr grouped1 \<Rightarrow> groupLoop grouped1 ps)"

text \<open>\<open>data.products || []\<close>: a missing list is the empty list.\<close>

definition fallbackGrouping :: "Product list option \<Rightarrow> js_error + grouped" where
  "fallbackGrouping data_products =
     groupLoop [] (case data_products of None \<Rightarrow> [] | Some ps \<Rightarrow> ps)"

text \<open>
  What the grouping is to compute, for the products seen so far: the products of a
  source in their input order, and the group they make up.
\<close>

definition matching :: "string \<Rightarrow> Product list \<Rightarrow> Product list" where
  "matching k ps = filter (\<lambda>p. sourceOf p = k) ps"

definition groupFor :: "string \<Rightarrow> Product list \<Rightarrow> BrandGroup" where
  "groupFor k seen =
     \<lparr> brand_name = replaceFirst ''www.'' '''' (replaceFirst ''.com'' '''' k),
       total_count = length (matching k seen),
       products = take 10 (matching k seen) \<rparr>"

definition groupsOf :: "Product list \<Rightarrow> grouped \<Rightarrow> bool" where
  "groupsOf seen grouped \<longleftrightarrow>
     distinct (map fst grouped) \<and>
     (\<forall>k. map_of grouped k =
        (if k \<in> sourceOf ` set seen then Some (groupFor k seen) else None))"

definition sampleProduct :: "string \<Rightarrow> string option \<Rightarrow> Product" where
  "sampleProduct i src =
     \<lparr> p_id = i, p_name = ''dress'', p_price = 20, p_source = src,
       p_image_url = '''', p_product_url = '''', p_category = None, p_brand = None \<rparr>"

definition sampleProducts :: "Product list" where
  "sampleProducts =
     [sampleProduct ''1'' (Some ''www.shein.com''), sampleProduct ''2'' None,
      sampleProduct ''3'' (Some ''www.shein.com'')]"

section \<open>The Trend Scorer\<close>

text \<open>
  The Trend Scorer of section 4.2 of the spec, \<open>score(record)\<close>, belongs to the back
  end, which is not among the sources; the front end only receives \<open>trend_score\<close>
  and \<open>trend_level\<close>. Every definition of this section is therefore modelled from
  the spec. The record scored is the \<open>FashionItem\<close>.
\<close>

text \<open>
  Modelled from the spec: the policy of the scorer, which is missing from the
  sources. The saturation constants, the lookback window and the five weights are
  what the spec calls the tunable policy surface; it names example values only.
\<close>

record ScoringPolicy =
  review_saturation_constant :: real
  sales_saturation_constant :: real
  lookback_window :: real
  w_reviews :: real
  w_rating :: real
  w_sales :: real
  w_discount :: real
  w_recency :: real

text \<open>
  Modelled from the spec: \<open>review_volume_signal = min(reviews_count /
  review_saturation_constant, 1.0)\<close>; the scorer is missing from the sources.
\<close>

definition review_volume_signal :: "ScoringPolicy \<Rightarrow> FashionItem \<Rightarrow> real" where
  "review_volume_signal pol r = min (reviews_count r / review_saturation_constant pol) 1"

text \<open>
  Modelled from the spec: \<open>rating_signal = rating / 5.0\<close>; the scorer is missing
  from the sources.
\<close>

definition rating_signal :: "FashionItem \<Rightarrow> real" where
  "rating_signal r = rating r / 5"

text \<open>
  Modelled from the spec: \<open>sales_signal = min(sales_count /
  sales_saturation_constant, 1.0)\<close>; the scorer is missing from the sources.
\<close>

definition sales_signal :: "ScoringPolicy \<Rightarrow> FashionItem \<Rightarrow> real" where
  "sales_signal pol r = min (sales_count r / sales_saturation_constant pol) 1"

text \<open>
  Modelled from the spec: \<open>discount_signal = (original_price - price) /
  original_price if original_price present else 0\<close>; the scorer is missing from the
  sources.
\<close>

definition discount_signal :: "FashionItem \<Rightarrow> real" where
  "discount_signal r =
     (case original_price r of
        Some op \<Rightarrow> (op - price r) / op
      | None \<Rightarrow> 0)"

text \<open>
  Modelled from the spec: the recency signal, which decays linearly to 0 over the
  lookback window; the scorer is missing from the sources. \<open>age\<close> is the age of
  \<open>scraped_at\<close> at the time of scoring, in the unit of the window.
\<close>

definition recency_signal :: "ScoringPolicy \<Rightarrow> real \<Rightarrow> real" where
  "recency_signal pol age = max 0 (1 - age / lookback_window pol)"

text \<open>
  Modelled from the spec: the level mapping, \<open>score \<ge> 85 \<rightarrow> hot; \<ge> 70 \<rightarrow> rising;
  \<ge> 50 \<rightarrow> stable; else declining\<close>; the scorer is missing from the sources.
\<close>

definition level_of_score :: "real \<Rightarrow> string" where
  "level_of_score s =
     (if s \<ge> 85 then ''hot''
      else if s \<ge> 70 then ''rising''
      else if s \<ge> 50 then ''stable''
      else ''declining'')"

text \<open>
  Modelled from the spec: \<open>score(record) -> (score, level)\<close>, 100 times the weighted
  sum of the five signals, with the level of that score; the scorer is missing
  from the sources.
\<close>

definition score :: "ScoringPolicy \<Rightarrow> real \<Rightarrow> FashionItem \<Rightarrow> real \<times> string" where
  "score pol age r =
     (let s = 100 * (w_reviews pol * review_volume_signal pol r
                     + w_rating pol * rating_signal r
                     + w_sales pol * sales_signal pol r
                     + w_discount pol * discount_signal r
                     + w_recency pol * recency_signal pol age)
      in (s, level_of_score s))"

text \<open>
  Modelled from the spec: the policies it admits, with positive saturation
  constants and window and with weights of a weighted average, none negative and
  summing to 1.
\<close>

definition valid_policy :: "ScoringPolicy \<Rightarrow> bool" where
  "valid_policy pol \<longleftrightarrow>
     0 < review_saturation_constant pol \<and> 0 < sales_saturation_constant pol
     \<and> 0 < lookback_window pol
     \<and> 0 \<le> w_reviews pol \<and> 0 \<le> w_rating pol \<and> 0 \<le> w_sales pol
     \<and> 0 \<le> w_discount pol \<and> 0 \<le> w_recency pol
     \<and> w_reviews pol + w_rating pol + w_sales pol + w_discount pol + w_recency pol = 1"

text \<open>
  Modelled from the spec: the invariants of a Product Record in its data model: a
  price that is not negative, an original price (when present) not below the
  price, a rating from 0 to 5, counts that are not negative. An original price is
  taken to be positive, since the discount signal divides by it.
\<close>

definition valid_record :: "FashionItem \<Rightarrow> bool" where
  "valid_record r \<longleftrightarrow>
     0 \<le> price r
     \<and> (case original_price r of None \<Rightarrow> True | Some op \<Rightarrow> 0 < op \<and> price r \<le> op)
     \<and> 0 \<le> reviews_count r \<and> 0 \<le> sales_count r
     \<and> 0 \<le> rating r \<and> rating r \<le> 5"

text \<open>The example weights and window of the spec, with saturation constants chosen here.\<close>

definition examplePolicy :: ScoringPolicy where
  "examplePolicy =
     \<lparr> review_saturation_constant = 1000, sales_saturation_constant = 5000,
       lookback_window = 30,
       w_reviews = 25/100, w_rating = 20/100, w_sales = 30/100,
       w_discount = 10/100, w_recency = 15/100 \<rparr>"

definition sampleItem :: "string \<Rightarrow> FashionItem" where
  "sampleItem cat =
     \<lparr> item_id = Some ''1'', name = Some ''dress'', price = 30, currency = ''USD'',
       original_price = Some 40, image_url = None, local_image_path = None,
       product_url = ''https://example.com/p/1'', category = cat, brand = ''shein'',
       reviews_count = 500, rating = 4, sales_count = 2500,
       trend_score = 60, trend_level = ''stable'',
       colors = [], tags = [], scraped_at = None \<rparr>"

text \<open>A dress at 17 that was 40 before: a discount of 57.5 percent.\<close>

definition tieItem :: FashionItem where
  "tieItem = (sampleItem ''dresses'')\<lparr>price := 17, original_price := Some 40\<rparr>"

section \<open>The Aggregator\<close>

text \<open>
  The Aggregator of section 4.3 of the spec belongs to the back end, which is not
  among the sources; the front end only displays the \<open>percentage\<close> it receives.
  Every definition of this section is therefore modelled from the spec.
\<close>

text \<open>
  Modelled from the spec: an Aggregate, a grouping key with its count, its
  percentage of the total and the average trend score of its members; the
  Aggregator is missing from the sources.
\<close>

record Aggregate =
  agg_key :: string
  agg_count :: nat
  agg_percentage :: real
  agg_avg_trend_score :: real

text \<open>
  Modelled from the spec: rounding to one decimal, to the nearest tenth; the
  Aggregator is missing from the sources.
\<close>

definition round1 :: "real \<Rightarrow> real" where
  "round1 x = real_of_int (round (x * 10)) / 10"

text \<open>
  Modelled from the spec: the distinct key values of a collection under a
  single-valued key selector (category or brand), in the order in which they first
  occur; the Aggregator is missing from the sources.
\<close>

definition groupKeys :: "(FashionItem \<Rightarrow> string) \<Rightarrow> FashionItem list \<Rightarrow> string list" where
  "groupKeys group_by records = rev (remdups (rev (map group_by records)))"

text \<open>
  Modelled from the spec: the aggregate of one key value, with its count, its
  percentage \<open>count / total \<times> 100\<close> rounded to one decimal, and the unweighted mean
  of the trend scores of the group; the Aggregator is missing from the sources.
\<close>

definition aggregateOf ::
  "(FashionItem \<Rightarrow> string) \<Rightarrow> FashionItem list \<Rightarrow> string \<Rightarrow> Aggregate" where
  "aggregateOf group_by records k =
     (let members = filter (\<lambda>r. group_by r = k) records
      in \<lparr> agg_key = k,
           agg_count = length members,
           agg_percentage = round1 (real (length members) / real (length records) * 100),
           agg_avg_trend_score = sum_list (map trend_score members) / real (length members) \<rparr>)"

text \<open>
  Modelled from the spec: \<open>aggregate(records, group_by)\<close>, one Aggregate per distinct
  key value; the Aggregator is missing from the sources. The order of the result
  is left as the order of first occurrence: it plays no role for the percentages,
  and the sorting that the sources do contain is that of the trends page.
\<close>

definition aggregate :: "(FashionItem \<Rightarrow> string) \<Rightarrow> FashionItem list \<Rightarrow> Aggregate list" where
  "aggregate group_by records = map (aggregateOf group_by records) (groupKeys group_by records)"

text \<open>Six records in six categories.\<close>

definition sixCategories :: "FashionItem list" where
  "sixCategories = map sampleItem [''dresses'', ''tops'', ''pants'', ''skirts'', ''shoes'', ''bags'']"

section \<open>Properties of the API client\<close>

lemma orNum_nonzero: "d \<noteq> 0 \<Longrightarrow> orNum x d \<noteq> 0"
  by (simp add: orNum_def split: option.splits)

text \<open>
  C9. A falsy option value is replaced by the default before the request is sent:
  \<open>converter.convert\<close> with \<open>detailLevel = 0\<close> sends \<open>detail_level = 0.5\<close>, with
  \<open>lineThickness = 0\<close> it sends \<open>line_thickness = 1.0\<close>, and \<open>generator.generate\<close> with
  \<open>variationStrength = 0\<close> sends \<open>variation_strength = 0.5\<close>. Whatever the options
  are, none of the three values sent is zero.
\<close>

theorem C9_falsy_options_get_defaults:
  "detail_level (convertBody sid (Some (co\<lparr>detailLevel := Some 0\<rparr>))) = 1/2
   \<and> line_thickness (convertBody sid (Some (co\<lparr>lineThickness := Some 0\<rparr>))) = 1
   \<and> variation_strength (generateBody sid (Some (go\<lparr>variationStrength := Some 0\<rparr>))) = 1/2
   \<and> detail_level (convertBody sid copts) \<noteq> 0
   \<and> line_thickness (convertBody sid copts) \<noteq> 0
   \<and> variation_strength (generateBody sid gopts) \<noteq> 0"
  by (simp add: convertBody_def generateBody_def optField_def orNum_nonzero)
    (simp add: orNum_def)

section \<open>Properties of the fallback grouping\<close>

lemma map_of_setProperty:
  "map_of (setProperty grouped k v) k' = (if k' = k then Some v else map_of grouped k')"
  by (induction grouped k v rule: setProperty.induct) auto

lemma keys_setProperty:
  "set (map fst (setProperty grouped k v)) = insert k (set (map fst grouped))"
  by (induction grouped k v rule: setProperty.induct) auto

lemma distinct_setProperty:
  "distinct (map fst grouped) \<Longrightarrow> distinct (map fst (setProperty grouped k v))"
proof (induction grouped k v rule: setProperty.induct)
  case (1 k v)
  then show ?case by simp
next
  case (2 k' v' rest k v)
  then show ?case using keys_setProperty[of rest k v] by auto
qed

lemma setProperty_twice:
  "setProperty (setProperty grouped k v) k w = setProperty grouped k w"
  by (induction grouped k v rule: setProperty.induct) auto

lemma take_snoc:
  "take n (xs @ [x]) = (if length xs < n then take n xs @ [x] else take n xs)"
  by auto

lemma addProduct_groupFor:
  assumes "sourceOf p = k"
  shows "addProduct p (groupFor k seen) = groupFor k (seen @ [p])"
proof -
  have m: "matching k (seen @ [p]) = matching k seen @ [p]"
    using assms by (simp add: matching_def)
  have l: "length (take 10 (matching k seen)) < 10 \<longleftrightarrow> length (matching k seen) < 10"
    by (simp add: min_def)
  show ?thesis
    unfolding addProduct_def groupFor_def m Let_def
    by (simp only: take_snoc BrandGroup.simps l split: if_splits) simp
qed

lemma groupFor_unseen:
  assumes "k \<notin> sourceOf ` set seen"
  shows "groupFor k seen = newGroup k"
proof -
  have "matching k seen = []"
    using assms by (auto simp: matching_def filter_empty_conv)
  then show ?thesis by (simp add: groupFor_def newGroup_def)
qed

lemma groupFor_other:
  "sourceOf p \<noteq> k \<Longrightarrow> groupFor k (seen @ [p]) = groupFor k seen"
  by (simp add: groupFor_def matching_def)

lemma groupsOf_step:
  assumes inv: "groupsOf seen grouped"
  shows "groupsOf (seen @ [p])
           (setProperty grouped (sourceOf p) (groupFor (sourceOf p) (seen @ [p])))"
  unfolding groupsOf_def
proof (intro conjI allI)
  show "distinct (map fst (setProperty grouped (sourceOf p) (groupFor (sourceOf p) (seen @ [p]))))"
    using inv by (simp add: groupsOf_def distinct_setProperty)
next
  fix k
  show "map_of (setProperty grouped (sourceOf p) (groupFor (sourceOf p) (seen @ [p]))) k =
        (if k \<in> sourceOf ` set (seen @ [p]) then Some (groupFor k (seen @ [p])) else None)"
  proof (cases "k = sourceOf p")
    case True
    then show ?thesis by (simp add: map_of_setProperty)
  next
    case False
    then have "groupFor k (seen @ [p]) = groupFor k seen"
      by (simp add: groupFor_other)
    moreover have "map_of grouped k =
        (if k \<in> sourceOf ` set seen then Some (groupFor k seen) else None)"
      using inv by (simp add: groupsOf_def)
    ultimately show ?thesis using False by (simp add: map_of_setProperty)
  qed
qed

text \<open>An iteration on a product whose source is not an inherited property name.\<close>

lemma groupStep_ok:
  assumes inv: "groupsOf seen grouped" and ok: "sourceOf p \<notin> set objectPrototypeKeys"
  shows "groupStep grouped p =
           Inr (setProperty grouped (sourceOf p) (groupFor (sourceOf p) (seen @ [p])))"
proof (cases "sourceOf p \<in> sourceOf ` set seen")
  case True
  with inv have m: "map_of grouped (sourceOf p) = Some (groupFor (sourceOf p) seen)"
    by (simp add: groupsOf_def)
  then show ?thesis
    by (simp add: groupStep_def hasProperty_def Let_def addProduct_groupFor)
next
  case False
  with inv have m: "map_of grouped (sourceOf p) = None"
    by (simp add: groupsOf_def)
  have a: "addProduct p (newGroup (sourceOf p)) = groupFor (sourceOf p) (seen @ [p])"
    using addProduct_groupFor[of p "sourceOf p" seen] groupFor_unseen[OF False] by simp
  show ?thesis using m ok
    by (simp add: groupStep_def hasProperty_def Let_def map_of_setProperty a setProperty_twice)
qed

lemma groupLoop_ok:
  "groupsOf seen grouped \<Longrightarrow> \<forall>p \<in> set ps. sourceOf p \<notin> set objectPrototypeKeys \<Longrightarrow>
   \<exists>grouped1. groupLoop grouped ps = Inr grouped1 \<and> groupsOf (seen @ ps) grouped1"
proof (induction ps arbitrary: seen grouped)
  case Nil
  then show ?case by simp
next
  case (Cons p ps)
  let ?g1 = "setProperty grouped (sourceOf p) (groupFor (sourceOf p) (seen @ [p]))"
  have s: "groupStep grouped p = Inr ?g1"
    using Cons.prems by (simp add: groupStep_ok)
  have i: "groupsOf (seen @ [p]) ?g1"
    using Cons.prems(1) by (rule groupsOf_step)
  from Cons.IH[OF i] Cons.prems(2)
  obtain g2 where "groupLoop ?g1 ps = Inr g2" "groupsOf ((seen @ [p]) @ ps) g2"
    by auto
  with s show ?case by simp
qed

text \<open>
  An iteration on a product whose source is an inherited property name throws, and
  so does the loop from then on: once a product named \<open>constructor\<close> arrives, no
  grouping is produced.
\<close>

lemma groupStep_inherited:
  assumes inv: "groupsOf seen grouped"
    and seen: "\<forall>q \<in> set seen. sourceOf q \<notin> set objectPrototypeKeys"
    and p: "sourceOf p \<in> set objectPrototypeKeys"
  shows "groupStep grouped p = Inl TypeError"
proof -
  have "sourceOf p \<notin> sourceOf ` set seen"
    using seen p by auto
  with inv have "map_of grouped (sourceOf p) = None"
    by (simp add: groupsOf_def)
  with p show ?thesis
    by (simp add: groupStep_def hasProperty_def Let_def)
qed

text \<open>The sizes of the groups of a list add up to its length.\<close>

lemma sum_list_indicator:
  "distinct ks \<Longrightarrow> (\<Sum>k\<leftarrow>ks. if a = k then 1 else 0) = (if a \<in> set ks then 1 else (0::nat))"
  by (induction ks) auto

lemma sum_list_group_sizes:
  assumes "distinct ks" and "f ` set xs \<subseteq> set ks"
  shows "(\<Sum>k\<leftarrow>ks. length (filter (\<lambda>x. f x = k) xs)) = length xs"
  using assms(2)
proof (induction xs)
  case Nil
  then show ?case by simp
next
  case (Cons x xs)
  have "(\<Sum>k\<leftarrow>ks. length (filter (\<lambda>y. f y = k) (x # xs)))
        = (\<Sum>k\<leftarrow>ks. (if f x = k then 1 else 0) + length (filter (\<lambda>y. f y = k) xs))"
    by (rule arg_cong[where f = sum_list]) (rule map_cong, auto)
  also have "\<dots> = (\<Sum>k\<leftarrow>ks. if f x = k then 1 else 0) + (\<Sum>k\<leftarrow>ks. length (filter (\<lambda>y. f y = k) xs))"
    by (simp add: sum_list_addf)
  also have "\<dots> = 1 + length xs"
    using Cons assms(1) by (simp add: sum_list_indicator)
  finally show ?case by simp
qed

lemma groupsOf_keys:
  assumes "groupsOf seen grouped"
  shows "set (map fst grouped) = sourceOf ` set seen"
proof -
  have "k \<in> set (map fst grouped) \<longleftrightarrow> k \<in> sourceOf ` set seen" for k
  proof -
    have "k \<in> set (map fst grouped) \<longleftrightarrow> map_of grouped k \<noteq> None"
      by (simp add: map_of_eq_None_iff)
    also have "\<dots> \<longleftrightarrow> k \<in> sourceOf ` set seen"
      using assms by (simp add: groupsOf_def)
    finally show ?thesis .
  qed
  then show ?thesis by blast
qed

lemma groupsOf_member:
  assumes "groupsOf seen grouped" and "(k, g) \<in> set grouped"
  shows "g = groupFor k seen"
proof -
  have d: "distinct (map fst grouped)"
    using assms(1) by (simp add: groupsOf_def)
  have "map_of grouped k = Some g"
    using map_of_is_SomeI[OF d assms(2)] .
  moreover have "map_of grouped k =
      (if k \<in> sourceOf ` set seen then Some (groupFor k seen) else None)"
    using assms(1) by (simp add: groupsOf_def)
  ultimately show ?thesis
    by (simp split: if_splits)
qed

lemma groupsOf_total:
  assumes "groupsOf seen grouped"
  shows "(\<Sum>e\<leftarrow>grouped. total_count (snd e)) = length seen"
proof -
  have eq: "map (\<lambda>e. total_count (snd e)) grouped
        = map (\<lambda>k. length (filter (\<lambda>p. sourceOf p = k) seen)) (map fst grouped)"
    unfolding map_map
  proof (rule map_cong[OF refl])
    fix e assume "e \<in> set grouped"
    then have "snd e = groupFor (fst e) seen"
      using groupsOf_member[OF assms, of "fst e" "snd e"] by simp
    then show "total_count (snd e)
        = ((\<lambda>k. length (filter (\<lambda>p. sourceOf p = k) seen)) \<circ> fst) e"
      by (simp add: groupFor_def matching_def)
  qed
  have d: "distinct (map fst grouped)"
    using assms by (simp add: groupsOf_def)
  have sub: "sourceOf ` set seen \<subseteq> set (map fst grouped)"
    using groupsOf_keys[OF assms] by simp
  show ?thesis
    unfolding eq using sum_list_group_sizes[OF d sub] .
qed

text \<open>
  The grouping of products none of whose sources is a property name of
  \<open>Object.prototype\<close>: it returns, the group of every source key has as
  \<open>total_count\<close> the number of input products with that source (a missing or empty
  source counting as \<open>unknown\<close>), its \<open>products\<close> are the first
  \<open>min(10, total_count)\<close> of them in input order, and every input product is counted
  in exactly one group: the keys are distinct, they are the sources of the input,
  and the counts add up to the number of products.
\<close>

lemma fallbackGrouping_counts:
  assumes "\<forall>p \<in> set ps. sourceOf p \<notin> set objectPrototypeKeys"
  shows "\<exists>grouped. fallbackGrouping (Some ps) = Inr grouped
     \<and> distinct (map fst grouped)
     \<and> set (map fst grouped) = sourceOf ` set ps
     \<and> (\<forall>e \<in> set grouped.
           total_count (snd e) = length (matching (fst e) ps)
         \<and> products (snd e) = take (min 10 (total_count (snd e))) (matching (fst e) ps))
     \<and> (\<Sum>e\<leftarrow>grouped. total_count (snd e)) = length ps"
proof -
  have "groupsOf [] []"
    by (simp add: groupsOf_def)
  from groupLoop_ok[OF this assms]
  obtain grouped where run: "groupLoop [] ps = Inr grouped" and inv: "groupsOf ps grouped"
    by auto
  have r: "fallbackGrouping (Some ps) = Inr grouped"
    using run by (simp add: fallbackGrouping_def)
  have d: "distinct (map fst grouped)"
    using inv by (simp add: groupsOf_def)
  have m: "total_count (snd e) = length (matching (fst e) ps)
         \<and> products (snd e) = take (min 10 (total_count (snd e))) (matching (fst e) ps)"
    if "e \<in> set grouped" for e
  proof -
    have "snd e = groupFor (fst e) ps"
      using groupsOf_member[OF inv, of "fst e" "snd e"] that by simp
    moreover have "take (min 10 (length xs)) xs = take 10 xs" for xs :: "Product list"
      by (simp add: min_def)
    ultimately show ?thesis
      by (simp add: groupFor_def)
  qed
  show ?thesis
    using r d groupsOf_keys[OF inv] m groupsOf_total[OF inv] by blast
qed

lemma fallbackGrouping_counts_sample:
  "\<exists>grouped. fallbackGrouping (Some sampleProducts) = Inr grouped
     \<and> set (map fst grouped) = {''www.shein.com'', ''unknown''}
     \<and> (\<Sum>e\<leftarrow>grouped. total_count (snd e)) = 3"
proof -
  have ok: "\<forall>p \<in> set sampleProducts. sourceOf p \<notin> set objectPrototypeKeys"
    by (simp add: sampleProducts_def sampleProduct_def sourceOf_def orStr_def
        objectPrototypeKeys_def)
  have src: "sourceOf ` set sampleProducts = {''www.shein.com'', ''unknown''}"
    by (auto simp add: sampleProducts_def sampleProduct_def sourceOf_def orStr_def)
  have len: "length sampleProducts = 3"
    by (simp add: sampleProducts_def)
  from fallbackGrouping_counts[OF ok]
  obtain grouped where "fallbackGrouping (Some sampleProducts) = Inr grouped"
    and "set (map fst grouped) = sourceOf ` set sampleProducts"
    and "(\<Sum>e\<leftarrow>grouped. total_count (snd e)) = length sampleProducts"
    by blast
  then show ?thesis
    unfolding src len by blast
qed

lemma fallbackGrouping_sample:
  "fallbackGrouping (Some sampleProducts) =
     Inr [(''www.shein.com'',
            \<lparr> brand_name = ''shein'', total_count = 2,
              products = [sampleProduct ''1'' (Some ''www.shein.com''),
                          sampleProduct ''3'' (Some ''www.shein.com'')] \<rparr>),
          (''unknown'',
            \<lparr> brand_name = ''unknown'', total_count = 1,
              products = [sampleProduct ''2'' None] \<rparr>)]"
  by (simp add: fallbackGrouping_def sampleProducts_def sampleProduct_def groupStep_def
      sourceOf_def orStr_def hasProperty_def objectPrototypeKeys_def newGroup_def
      addProduct_def Let_def)

text \<open>
  C10. In the fallback grouping by source every input product is to be counted in
  exactly one group, whose \<open>total_count\<close> is the number of input products with that
  source. For a product whose source is \<open>constructor\<close> the code does not do so:
  \<open>grouped['constructor']\<close> is found on \<open>Object.prototype\<close>, no group is created, and
  reading the \<open>length\<close> of its missing \<open>products\<close> throws. The grouping of such a
  product alone, and of a list in which it stands between two products of
  \<open>www.shein.com\<close>, ends in a \<open>TypeError\<close>: no product is counted in any group.
\<close>

theorem C10_inherited_source_throws:
  "fallbackGrouping (Some [sampleProduct ''1'' (Some ''constructor'')]) = Inl TypeError
   \<and> fallbackGrouping
         (Some [sampleProduct ''1'' (Some ''www.shein.com''),
                sampleProduct ''2'' (Some ''constructor''),
                sampleProduct ''3'' (Some ''www.shein.com'')]) = Inl TypeError"
  by (simp add: fallbackGrouping_def sampleProduct_def groupStep_def
      sourceOf_def orStr_def hasProperty_def objectPrototypeKeys_def newGroup_def
      addProduct_def Let_def)

text \<open>
  C6. Grouping an empty collection returns an empty result and raises no error:
  the fallback grouping of a missing or empty product list is the empty object,
  and the trends page sorts no entries into no entries.
\<close>

theorem C6_empty_input_empty_result:
  "fallbackGrouping None = Inr []
   \<and> fallbackGrouping (Some []) = Inr []
   \<and> sortEntries [] = []"
  by (simp add: fallbackGrouping_def sortEntries_def)

section \<open>Properties of the trends page sort\<close>

text \<open>
  C4, as the code has it. The trends page lists the entries of \<open>by_source\<close> and of
  \<open>by_category\<close> in descending order of count. The sort rearranges the entries
  without adding or dropping any, and entries with the same count keep the order
  in which they arrived: an entry carries a name and a count only, and neither an
  average trend score nor the name takes part in the comparison.
\<close>

theorem C4_entries_sorted_by_count_stable:
  "sorted_wrt (\<lambda>a b. snd a \<ge> snd b) (sortEntries entries)
   \<and> mset (sortEntries entries) = mset entries
   \<and> filter (\<lambda>e. snd e = c) (sortEntries entries) = filter (\<lambda>e. snd e = c) entries"
proof -
  have "sorted (map (\<lambda>e. - snd e) (sortEntries entries))"
    by (simp add: sortEntries_def)
  then have desc: "sorted_wrt (\<lambda>a b. snd a \<ge> snd b) (sortEntries entries)"
    by (simp add: sorted_map)
  have perm: "mset (sortEntries entries) = mset entries"
    by (simp add: sortEntries_def)
  have "(\<lambda>e. snd e = c) = (\<lambda>e::string \<times> int. - snd e = - c)"
    by auto
  then have stable:
    "filter (\<lambda>e. snd e = c) (sortEntries entries) = filter (\<lambda>e. snd e = c) entries"
    unfolding sortEntries_def by (simp only: sort_key_stable)
  from desc perm stable show ?thesis by blast
qed

text \<open>
  Two sources with one product each, arriving as \<open>zara.com\<close>, \<open>hm.com\<close>: they stay in
  that order, which is not the order of their names.
\<close>

theorem C4_name_tie_break_counterexample:
  "sortEntries [(''zara.com'', 1), (''hm.com'', 1)] = [(''zara.com'', 1), (''hm.com'', 1)]
   \<and> \<not> sorted_wrt specEntryOrder (sortEntries [(''zara.com'', 1), (''hm.com'', 1)])"
  by (simp add: sortEntries_def specEntryOrder_def)

lemma sortEntries_sample:
  "sortEntries [(''a'', 1), (''b'', 3), (''c'', 2), (''d'', 3)]
     = [(''b'', 3), (''d'', 3), (''c'', 2), (''a'', 1)]"
  by (simp add: sortEntries_def)

section \<open>Properties of the generator page's item mapping\<close>

text \<open>
  C3, as the code has it. For every database row the mapping yields: the price of
  the row, and 0 when it is missing; \<open>reviews_count\<close>, \<open>rating\<close> and \<open>sales_count\<close> 0;
  the trend score 50 with the level \<open>stable\<close>; the product URL of the row, and the
  empty string when it is missing; the category of the row, and \<open>other\<close> when it is
  missing or empty; the brand of the row, else its source, else the empty string;
  the currency \<open>USD\<close>; no colours and no tags. The id, the name and the image URL
  are those of the row, and missing when the row has none.
\<close>

theorem C3_generator_item_defaults:
  "price (toFashionItem item) = (case db_price item of None \<Rightarrow> 0 | Some v \<Rightarrow> v)
   \<and> reviews_count (toFashionItem item) = 0
   \<and> rating (toFashionItem item) = 0
   \<and> sales_count (toFashionItem item) = 0
   \<and> trend_score (toFashionItem item) = 50
   \<and> trend_level (toFashionItem item) = ''stable''
   \<and> product_url (toFashionItem item) = (case db_product_url item of None \<Rightarrow> [] | Some u \<Rightarrow> u)
   \<and> category (toFashionItem item)
       = (case db_category item of None \<Rightarrow> ''other'' | Some c \<Rightarrow> if c = [] then ''other'' else c)
   \<and> brand (toFashionItem item)
       = (case db_brand item of
            None \<Rightarrow> (case db_source item of None \<Rightarrow> [] | Some s \<Rightarrow> s)
          | Some b \<Rightarrow> if b = [] then (case db_source item of None \<Rightarrow> [] | Some s \<Rightarrow> s) else b)
   \<and> currency (toFashionItem item) = ''USD''
   \<and> colors (toFashionItem item) = [] \<and> tags (toFashionItem item) = []
   \<and> item_id (toFashionItem item) = db_id item
   \<and> name (toFashionItem item) = db_name item
   \<and> image_url (toFashionItem item) = db_image_url item"
  by (simp add: toFashionItem_def orNum_def orStr_def split: option.splits)

text \<open>
  The row with nothing in it: its rating becomes 0, the lowest rating and not the
  midpoint of the scale, its category becomes \<open>other\<close>, neither empty nor
  \<open>unknown\<close>, and its name stays missing.
\<close>

theorem C3_missing_fields_counterexample:
  "rating (toFashionItem emptyDbItem) = 0
   \<and> rating (toFashionItem emptyDbItem) \<noteq> (0 + 5) / 2
   \<and> category (toFashionItem emptyDbItem) = ''other''
   \<and> category (toFashionItem emptyDbItem) \<noteq> []
   \<and> category (toFashionItem emptyDbItem) \<noteq> ''unknown''
   \<and> name (toFashionItem emptyDbItem) = None"
  by (simp add: toFashionItem_def emptyDbItem_def orStr_def)

section \<open>Properties of the Trend Scorer and of the presentation of its results\<close>

lemma level_of_score_cases:
  "level_of_score s = ''hot'' \<or> level_of_score s = ''rising''
   \<or> level_of_score s = ''stable'' \<or> level_of_score s = ''declining''"
  by (simp add: level_of_score_def)

text \<open>
  C1. The level is a function of the score alone, by fixed thresholds: \<open>hot\<close> exactly
  from 85, \<open>rising\<close> exactly from 70 to below 85, \<open>stable\<close> exactly from 50 to below
  70, \<open>declining\<close> exactly below 50; the level the scorer returns is the level of
  the score it returns. In the sources, the item the generator page builds (score
  50, \<open>stable\<close>) agrees with the thresholds, and the discovery page draws the red
  score bar exactly for the scores that are \<open>hot\<close>.
\<close>

theorem C1_level_from_score_thresholds:
  "(level_of_score s = ''hot'' \<longleftrightarrow> 85 \<le> s)
   \<and> (level_of_score s = ''rising'' \<longleftrightarrow> 70 \<le> s \<and> s < 85)
   \<and> (level_of_score s = ''stable'' \<longleftrightarrow> 50 \<le> s \<and> s < 70)
   \<and> (level_of_score s = ''declining'' \<longleftrightarrow> s < 50)
   \<and> snd (score pol age r) = level_of_score (fst (score pol age r))
   \<and> trend_level (toFashionItem item) = level_of_score (trend_score (toFashionItem item))
   \<and> (scoreBarClass s = ''bg-red-500'' \<longleftrightarrow> level_of_score s = ''hot'')"
  by (simp add: level_of_score_def score_def Let_def toFashionItem_def scoreBarClass_def)

text \<open>
  How the pages present a level: the scanner page has a class for each of the four
  levels and falls back to the class of \<open>stable\<close> for any other string; the
  discovery page's badge names the level. The colour of the score bar is a
  presentation of its own, with the cuts 85, 75 and 65: it is red exactly for the
  \<open>hot\<close> scores, and below that its colours do not follow the levels.
\<close>

lemma getTrendBadgeClass_levels:
  "level \<in> set trendLevels \<Longrightarrow> getTrendBadgeClass level = ''trend-'' @ level"
  by (auto simp: trendLevels_def getTrendBadgeClass_def)

lemma getTrendBadgeClass_default:
  "level \<notin> set trendLevels \<Longrightarrow> getTrendBadgeClass level = ''trend-stable''"
  by (simp add: trendLevels_def getTrendBadgeClass_def)

lemma getDirectionBadge_level_of_score:
  "badge_text (getDirectionBadge (level_of_score s))
     = (if s \<ge> 85 then ''Hot'' else if s \<ge> 70 then ''Rising''
        else if s \<ge> 50 then ''Stable'' else ''Declining'')"
  by (simp add: getDirectionBadge_def level_of_score_def)

lemma scoreBarClass_not_the_level:
  "scoreBarClass 72 = ''bg-yellow-500'' \<and> level_of_score 72 = ''rising''
   \<and> scoreBarClass 60 = ''bg-blue-500'' \<and> scoreBarClass 40 = ''bg-blue-500''
   \<and> level_of_score 60 = ''stable'' \<and> level_of_score 40 = ''declining''"
  by (simp add: scoreBarClass_def level_of_score_def)

text \<open>The four signals that depend on the record or on the age lie between 0 and 1.\<close>

lemma review_volume_signal_range:
  "valid_policy pol \<Longrightarrow> valid_record r \<Longrightarrow>
   0 \<le> review_volume_signal pol r \<and> review_volume_signal pol r \<le> 1"
  by (simp add: review_volume_signal_def valid_policy_def valid_record_def)

lemma sales_signal_range:
  "valid_policy pol \<Longrightarrow> valid_record r \<Longrightarrow>
   0 \<le> sales_signal pol r \<and> sales_signal pol r \<le> 1"
  by (simp add: sales_signal_def valid_policy_def valid_record_def)

lemma rating_signal_range:
  "valid_record r \<Longrightarrow> 0 \<le> rating_signal r \<and> rating_signal r \<le> 1"
  by (simp add: rating_signal_def valid_record_def)

lemma discount_signal_range:
  "valid_record r \<Longrightarrow> 0 \<le> discount_signal r \<and> discount_signal r \<le> 1"
  by (auto simp: discount_signal_def valid_record_def split: option.splits)

lemma recency_signal_range:
  "valid_policy pol \<Longrightarrow> 0 \<le> age \<Longrightarrow>
   0 \<le> recency_signal pol age \<and> recency_signal pol age \<le> 1"
  by (simp add: recency_signal_def valid_policy_def)

lemma weighted_term_range:
  fixes w x :: real
  shows "0 \<le> w \<Longrightarrow> 0 \<le> x \<and> x \<le> 1 \<Longrightarrow> 0 \<le> w * x \<and> w * x \<le> w"
  by (simp add: mult_left_le)

text \<open>
  C2. The score of every valid record under every valid policy lies in the closed
  interval from 0 to 100 and its level is one of \<open>hot\<close>, \<open>rising\<close>, \<open>stable\<close>,
  \<open>declining\<close>; the item the generator page builds carries the score 50 and the
  level \<open>stable\<close>, inside the range and the set as well.
\<close>

theorem C2_score_range_and_levels:
  assumes pol: "valid_policy pol" and rec: "valid_record r" and age: "0 \<le> age"
  shows "0 \<le> fst (score pol age r) \<and> fst (score pol age r) \<le> 100
     \<and> snd (score pol age r) \<in> set trendLevels
     \<and> 0 \<le> trend_score (toFashionItem item) \<and> trend_score (toFashionItem item) \<le> 100
     \<and> trend_level (toFashionItem item) \<in> set trendLevels"
proof -
  let ?t1 = "w_reviews pol * review_volume_signal pol r"
  let ?t2 = "w_rating pol * rating_signal r"
  let ?t3 = "w_sales pol * sales_signal pol r"
  let ?t4 = "w_discount pol * discount_signal r"
  let ?t5 = "w_recency pol * recency_signal pol age"
  have w: "0 \<le> w_reviews pol" "0 \<le> w_rating pol" "0 \<le> w_sales pol"
    "0 \<le> w_discount pol" "0 \<le> w_recency pol"
    and total: "w_reviews pol + w_rating pol + w_sales pol + w_discount pol + w_recency pol = 1"
    using pol by (simp_all add: valid_policy_def)
  have t1: "0 \<le> ?t1 \<and> ?t1 \<le> w_reviews pol"
    using w(1) review_volume_signal_range[OF pol rec] by (rule weighted_term_range)
  have t2: "0 \<le> ?t2 \<and> ?t2 \<le> w_rating pol"
    using w(2) rating_signal_range[OF rec] by (rule weighted_term_range)
  have t3: "0 \<le> ?t3 \<and> ?t3 \<le> w_sales pol"
    using w(3) sales_signal_range[OF pol rec] by (rule weighted_term_range)
  have t4: "0 \<le> ?t4 \<and> ?t4 \<le> w_discount pol"
    using w(4) discount_signal_range[OF rec] by (rule weighted_term_range)
  have t5: "0 \<le> ?t5 \<and> ?t5 \<le> w_recency pol"
    using w(5) recency_signal_range[OF pol age] by (rule weighted_term_range)
  have s: "fst (score pol age r) = 100 * (?t1 + ?t2 + ?t3 + ?t4 + ?t5)"
    by (simp add: score_def Let_def)
  have lo: "0 \<le> fst (score pol age r)"
    unfolding s using t1 t2 t3 t4 t5 by simp
  have "?t1 + ?t2 + ?t3 + ?t4 + ?t5 \<le> 1"
    using t1 t2 t3 t4 t5 total by linarith
  then have hi: "fst (score pol age r) \<le> 100"
    unfolding s by simp
  have lv: "snd (score pol age r) \<in> set trendLevels"
    using level_of_score_cases[of "fst (score pol age r)"]
    by (auto simp: score_def Let_def trendLevels_def)
  have item: "0 \<le> trend_score (toFashionItem item) \<and> trend_score (toFashionItem item) \<le> 100
     \<and> trend_level (toFashionItem item) \<in> set trendLevels"
    by (simp add: toFashionItem_def trendLevels_def)
  from lo hi lv item show ?thesis by blast
qed

lemma score_sample:
  "score examplePolicy 0 (sampleItem ''dresses'') = (61, ''stable'')"
  by (simp add: score_def examplePolicy_def sampleItem_def review_volume_signal_def
      rating_signal_def sales_signal_def discount_signal_def recency_signal_def
      level_of_score_def Let_def)

theorem C2_score_range_and_levels_witness:
  "valid_policy examplePolicy \<and> valid_record (sampleItem ''dresses'')
   \<and> 0 \<le> fst (score examplePolicy 0 (sampleItem ''dresses''))
   \<and> fst (score examplePolicy 0 (sampleItem ''dresses'')) \<le> 100
   \<and> snd (score examplePolicy 0 (sampleItem ''dresses'')) \<in> set trendLevels"
proof -
  have p: "valid_policy examplePolicy"
    by (simp add: valid_policy_def examplePolicy_def)
  have r: "valid_record (sampleItem ''dresses'')"
    by (simp add: valid_record_def sampleItem_def)
  show ?thesis
    using p r C2_score_range_and_levels[OF p r, of 0] by simp
qed

section \<open>Properties of the arithmetic on doubles and of the discount badge\<close>

lemma roundHalfEven_error: "\<bar>of_int (roundHalfEven x) - x\<bar> \<le> 1/2"
  unfolding roundHalfEven_def Let_def by (simp; linarith)

text \<open>\<open>exponentOf\<close> is the exponent of the binade of a positive number.\<close>

lemma exponentOf_bounds:
  assumes "0 < x"
  shows "2 powi exponentOf x \<le> x \<and> x < 2 powi (exponentOf x + 1)"
proof (cases "1 \<le> x")
  case True
  let ?n = "\<lfloor>x\<rfloor>"
  have n: "0 < ?n" using True by simp
  from bitlen_bounds[OF n] have b: "2 ^ nat (bitlen ?n - 1) \<le> ?n" "?n < 2 ^ nat (bitlen ?n)"
    by simp_all
  have b1: "1 \<le> bitlen ?n" using n by (simp add: bitlen_alt_def)
  have "(2::real) powi (bitlen ?n - 1) = 2 ^ nat (bitlen ?n - 1)"
    using b1 by (simp add: power_int_nonneg_exp)
  also have "\<dots> = of_int (2 ^ nat (bitlen ?n - 1))" by simp
  also have "\<dots> \<le> of_int ?n" using b(1) by (simp only: of_int_le_iff)
  also have "\<dots> \<le> x" by simp
  finally have lo: "2 powi (bitlen ?n - 1) \<le> x" .
  have "?n + 1 \<le> 2 ^ nat (bitlen ?n)" using b(2) by simp
  then have "of_int (?n + 1) \<le> (of_int (2 ^ nat (bitlen ?n)) :: real)"
    by (simp only: of_int_le_iff)
  then have "real_of_int ?n + 1 \<le> 2 ^ nat (bitlen ?n)" by simp
  moreover have "x < real_of_int ?n + 1" by linarith
  ultimately have "x < 2 ^ nat (bitlen ?n)" by linarith
  moreover have "(2::real) powi (bitlen ?n) = 2 ^ nat (bitlen ?n)"
    using b1 by (simp add: power_int_nonneg_exp)
  ultimately have hi: "x < 2 powi (bitlen ?n - 1 + 1)" by simp
  from lo hi True show ?thesis by (simp add: exponentOf_def)
next
  case False
  let ?m = "\<lceil>1 / x\<rceil> - 1"
  have x1: "x < 1" using False by simp
  have inv: "1 < 1 / x" using assms x1 by simp
  have m: "0 < ?m" using inv by (simp add: less_ceiling_iff)
  from bitlen_bounds[OF m] have b: "2 ^ nat (bitlen ?m - 1) \<le> ?m" "?m < 2 ^ nat (bitlen ?m)"
    by simp_all
  have b1: "1 \<le> bitlen ?m" using m by (simp add: bitlen_alt_def)
  have p: "(2::real) powi (- bitlen ?m) = 1 / 2 ^ nat (bitlen ?m)"
    using b1 by (simp add: power_int_minus_divide power_int_nonneg_exp)
  have p1: "(2::real) powi (- bitlen ?m + 1) = 1 / 2 ^ nat (bitlen ?m - 1)"
  proof -
    have "- bitlen ?m + 1 = - (bitlen ?m - 1)" by simp
    then show ?thesis
      using b1 by (simp only: power_int_minus_divide) (simp add: power_int_nonneg_exp)
  qed
  have "?m + 1 \<le> 2 ^ nat (bitlen ?m)" using b(2) by simp
  then have "of_int (?m + 1) \<le> (of_int (2 ^ nat (bitlen ?m)) :: real)"
    by (simp only: of_int_le_iff)
  then have "real_of_int ?m + 1 \<le> 2 ^ nat (bitlen ?m)" by simp
  moreover have "1 / x \<le> real_of_int ?m + 1" by simp
  ultimately have "1 / x \<le> 2 ^ nat (bitlen ?m)" by linarith
  then have lo: "1 / 2 ^ nat (bitlen ?m) \<le> x"
    using assms by (simp add: field_simps)
  have "of_int (2 ^ nat (bitlen ?m - 1)) \<le> (of_int ?m :: real)"
    using b(1) by (simp only: of_int_le_iff)
  then have "2 ^ nat (bitlen ?m - 1) \<le> real_of_int ?m" by simp
  moreover have "real_of_int ?m < 1 / x" by linarith
  ultimately have "2 ^ nat (bitlen ?m - 1) < 1 / x" by linarith
  then have hi: "x < 1 / 2 ^ nat (bitlen ?m - 1)"
    using assms by (simp add: field_simps)
  from lo hi False p p1 show ?thesis by (simp add: exponentOf_def)
qed

text \<open>Rounding to a double moves a number of size at most \<open>2 powi k\<close> by at most \<open>2 powi (k - 53)\<close>.\<close>

lemma toDouble_error:
  assumes "\<bar>x\<bar> \<le> 2 powi k" and "- 1022 \<le> k"
  shows "\<bar>toDouble x - x\<bar> \<le> 2 powi (k - 53)"
proof (cases "x = 0")
  case True
  then show ?thesis by (simp add: toDouble_def)
next
  case False
  let ?e = "max (exponentOf \<bar>x\<bar>) (- 1022)"
  let ?u = "(2::real) powi (?e - 52)"
  have "2 powi exponentOf \<bar>x\<bar> \<le> \<bar>x\<bar>"
    using exponentOf_bounds[of "\<bar>x\<bar>"] False by simp
  with assms(1) have "(2::real) powi exponentOf \<bar>x\<bar> \<le> 2 powi k"
    by linarith
  then have "exponentOf \<bar>x\<bar> \<le> k"
    using power_int_strict_increasing[of k "exponentOf \<bar>x\<bar>" "2::real"] by force
  with assms(2) have e: "?e \<le> k" by simp
  have u: "0 < ?u" by simp
  have td: "toDouble x = of_int (roundHalfEven (x / ?u)) * ?u"
    using False by (simp add: toDouble_def ulp_def)
  have "toDouble x - x = (of_int (roundHalfEven (x / ?u)) - x / ?u) * ?u"
    unfolding td using u by (simp add: field_simps)
  then have "\<bar>toDouble x - x\<bar> = \<bar>of_int (roundHalfEven (x / ?u)) - x / ?u\<bar> * ?u"
    using u by (simp add: abs_mult)
  also have "\<dots> \<le> 1/2 * ?u"
    using roundHalfEven_error[of "x / ?u"] u by (intro mult_right_mono) simp_all
  also have "\<dots> = 2 powi (?e - 53)"
  proof -
    have "(2::real) powi ((?e - 53) + 1) = 2 powi (?e - 53) * 2"
      by (rule power_int_add_1) simp
    moreover have "(?e - 53) + 1 = ?e - 52" by simp
    ultimately have "(2::real) powi (?e - 52) = 2 powi (?e - 53) * 2"
      by (simp only:)
    then show ?thesis by simp
  qed
  also have "\<dots> \<le> 2 powi (k - 53)"
    using e by (intro power_int_increasing) simp_all
  finally show ?thesis .
qed

lemma three_step_error:
  fixes t d q' q a b c :: real
  assumes "\<bar>t - d * 100\<bar> \<le> a" and "\<bar>d - (1 - q')\<bar> \<le> b" and "\<bar>q' - q\<bar> \<le> c"
  shows "\<bar>t - 100 * (1 - q)\<bar> \<le> a + 100 * b + 100 * c"
proof -
  have 1: "- a \<le> t - d * 100" "t - d * 100 \<le> a"
    using assms(1) by (simp_all add: abs_le_iff)
  have 2: "- b \<le> d - (1 - q')" "d - (1 - q') \<le> b"
    using assms(2) by (simp_all add: abs_le_iff)
  have 3: "- c \<le> q' - q" "q' - q \<le> c"
    using assms(3) by (simp_all add: abs_le_iff)
  have "t - 100 * (1 - q) \<le> a + 100 * b + 100 * c"
    using 1 2 3 by argo
  moreover have "- (a + 100 * b + 100 * c) \<le> t - 100 * (1 - q)"
    using 1 2 3 by argo
  ultimately show ?thesis by (simp add: abs_le_iff)
qed

text \<open>
  The double the badge rounds is within \<open>2 powi (- 44)\<close> of the exact percentage.
\<close>

lemma discount_percent_error:
  assumes "0 \<le> p" and "p < op"
  shows "\<bar>jsMul (jsSub 1 (jsDiv p op)) 100 - 100 * ((op - p) / op)\<bar> \<le> 1 / 2 ^ 44"
proof -
  let ?q = "p / op"
  let ?q' = "jsDiv p op"
  let ?d' = "jsSub 1 ?q'"
  let ?t' = "jsMul ?d' 100"
  have q: "0 \<le> ?q" "?q < 1" using assms by simp_all
  have eq: "\<bar>?q' - ?q\<bar> \<le> 1 / 2 ^ 53"
    using toDouble_error[of ?q 0] q by (simp add: jsDiv_def)
  moreover have small: "(1::real) / 2 ^ 53 \<le> 1 / 8" "(1::real) / 2 ^ 52 \<le> 1 / 8"
    by simp_all
  ultimately have d: "\<bar>1 - ?q'\<bar> \<le> 2"
    using q by linarith
  have ed: "\<bar>?d' - (1 - ?q')\<bar> \<le> 1 / 2 ^ 52"
    using toDouble_error[of "1 - ?q'" 1] d by (simp add: jsSub_def)
  have "\<bar>?d'\<bar> \<le> 128 / 100"
    using ed eq q small by linarith
  then have t: "\<bar>?d' * 100\<bar> \<le> 128"
    by (simp add: abs_mult)
  have et: "\<bar>?t' - ?d' * 100\<bar> \<le> 1 / 2 ^ 46"
    using toDouble_error[of "?d' * 100" 7] t by (simp add: jsMul_def)
  have ex: "100 * ((op - p) / op) = 100 * (1 - ?q)"
    using assms by (simp add: field_simps)
  have "\<bar>?t' - 100 * (1 - ?q)\<bar> \<le> 1 / 2 ^ 46 + 100 * (1 / 2 ^ 52) + 100 * (1 / 2 ^ 53)"
    using et ed eq by (rule three_step_error)
  also have "\<dots> \<le> 1 / 2 ^ 44" by simp
  finally show ?thesis unfolding ex .
qed

text \<open>
  Rounding a number close to \<open>y\<close> gives an integer within a half and that distance
  of \<open>y\<close>, and gives the rounding of \<open>y\<close> itself when \<open>y\<close> is farther than that
  distance from the middle between its two neighbouring integers.
\<close>

lemma round_close:
  fixes t y e :: real
  assumes "\<bar>t - y\<bar> \<le> e"
  shows "\<bar>real_of_int (round t) - y\<bar> \<le> 1/2 + e"
  using assms of_int_round_abs_le[of t] by linarith

lemma round_same:
  fixes t y e :: real
  assumes close: "\<bar>t - y\<bar> \<le> e" and away: "e < \<bar>y - (of_int \<lfloor>y\<rfloor> + 1/2)\<bar>"
  shows "round t = round y"
proof -
  have f: "of_int \<lfloor>y\<rfloor> \<le> y" "y < of_int \<lfloor>y\<rfloor> + 1"
    by linarith+
  have up: "real_of_int (\<lfloor>y\<rfloor> + 1) = of_int \<lfloor>y\<rfloor> + 1"
    by simp
  show ?thesis
  proof (cases "y < of_int \<lfloor>y\<rfloor> + 1/2")
    case True
    have "y - 1/2 < of_int \<lfloor>y\<rfloor>" "of_int \<lfloor>y\<rfloor> \<le> y + 1/2"
      using True f by linarith+
    then have "round y = \<lfloor>y\<rfloor>"
      by (rule round_unique)
    moreover have "t - 1/2 < of_int \<lfloor>y\<rfloor>" "of_int \<lfloor>y\<rfloor> \<le> t + 1/2"
      using True f close away by linarith+
    then have "round t = \<lfloor>y\<rfloor>"
      by (rule round_unique)
    ultimately show ?thesis by simp
  next
    case False
    have "y - 1/2 < of_int (\<lfloor>y\<rfloor> + 1)" "of_int (\<lfloor>y\<rfloor> + 1) \<le> y + 1/2"
      unfolding up using False f by linarith+
    then have "round y = \<lfloor>y\<rfloor> + 1"
      by (rule round_unique)
    moreover have "t - 1/2 < of_int (\<lfloor>y\<rfloor> + 1)" "of_int (\<lfloor>y\<rfloor> + 1) \<le> t + 1/2"
      unfolding up using False f close away by linarith+
    then have "round t = \<lfloor>y\<rfloor> + 1"
      by (rule round_unique)
    ultimately show ?thesis by simp
  qed
qed

text \<open>The computation of the badge for a price of 17 and an original price of 40.\<close>

lemma bitlen_small: "bitlen 1 = 1" "bitlen 2 = 2" "bitlen 57 = 6"
  by code_simp+

lemma toDouble_17_40: "toDouble (17 / 40) = 7656119366529843 / 2 ^ 54"
  by (simp add: toDouble_def ulp_def exponentOf_def roundHalfEven_def Let_def bitlen_small)

lemma toDouble_sub_17_40:
  "toDouble (1 - 7656119366529843 / 2 ^ 54) = 2589569785738035 / 2 ^ 52"
  by (simp add: toDouble_def ulp_def exponentOf_def roundHalfEven_def Let_def bitlen_small)

lemma toDouble_mul_17_40:
  "toDouble (2589569785738035 / 2 ^ 52 * 100) = 8092405580431359 / 2 ^ 47"
  by (simp add: toDouble_def ulp_def exponentOf_def roundHalfEven_def Let_def bitlen_small)

lemma js_17_40: "jsMul (jsSub 1 (jsDiv 17 40)) 100 = 8092405580431359 / 2 ^ 47"
  by (simp only: jsMul_def jsSub_def jsDiv_def toDouble_17_40 toDouble_sub_17_40
      toDouble_mul_17_40)

text \<open>
  C7, as the code has it. The discount signal is \<open>(original_price - price) /
  original_price\<close> when the original price is present and 0 when it is absent.
  Whenever the original price is present and greater than a price that is not
  negative, the gallery and the trend card display an integer that differs from
  100 times that quotient by at most a half plus \<open>2 powi (- 44)\<close>; it is that
  product rounded to the nearest integer unless the product lies within
  \<open>2 powi (- 44)\<close> of the middle between two integers. Without an original price
  nothing is displayed.
\<close>

theorem C7_discount_badge_within_rounding:
  "(original_price item = None \<longrightarrow> discount_signal item = 0 \<and> discountBadge item = None)
   \<and> (original_price item = Some op \<longrightarrow> discount_signal item = (op - price item) / op)
   \<and> (original_price item = Some op \<and> price item < op \<and> 0 \<le> price item \<longrightarrow>
        (\<exists>n. discountBadge item = Some n
           \<and> \<bar>real_of_int n - 100 * discount_signal item\<bar> \<le> 1/2 + 1 / 2 ^ 44
           \<and> (1 / 2 ^ 44
                  < \<bar>100 * discount_signal item
                      - (of_int \<lfloor>100 * discount_signal item\<rfloor> + 1/2)\<bar>
                \<longrightarrow> n = round (100 * discount_signal item))))"
proof -
  have badge: "\<exists>n. discountBadge item = Some n
           \<and> \<bar>real_of_int n - 100 * discount_signal item\<bar> \<le> 1/2 + 1 / 2 ^ 44
           \<and> (1 / 2 ^ 44
                  < \<bar>100 * discount_signal item
                      - (of_int \<lfloor>100 * discount_signal item\<rfloor> + 1/2)\<bar>
                \<longrightarrow> n = round (100 * discount_signal item))"
    if o: "original_price item = Some op" and lt: "price item < op" and nn: "0 \<le> price item"
  proof -
    let ?t = "jsMul (jsSub 1 (jsDiv (price item) op)) 100"
    have sig: "discount_signal item = (op - price item) / op"
      using o by (simp add: discount_signal_def)
    have b: "discountBadge item = Some (round ?t)"
      using o lt nn by (simp add: discountBadge_def)
    have close: "\<bar>?t - 100 * discount_signal item\<bar> \<le> 1 / 2 ^ 44"
      unfolding sig using nn lt by (rule discount_percent_error)
    show ?thesis
      using b round_close[OF close] round_same[OF close] by blast
  qed
  then show ?thesis
    by (auto simp: discount_signal_def discountBadge_def)
qed

text \<open>
  A price of 17 with an original price of 40: 100 times the quotient is 57.5,
  which rounds to 58; the double computed is 57.49999999999999, and the badge
  shows 57.
\<close>

theorem C7_exact_rounding_counterexample:
  "price tieItem = 17 \<and> original_price tieItem = Some 40
   \<and> 100 * ((40 - price tieItem) / 40) = 115 / 2
   \<and> round (100 * ((40 - price tieItem) / 40)) = 58
   \<and> discountBadge tieItem = Some 57"
proof -
  have "round (8092405580431359 / 2 ^ 47 :: real) = 57"
    by (simp add: round_def)
  then have "discountBadge tieItem = Some 57"
    by (simp add: discountBadge_def tieItem_def sampleItem_def js_17_40)
  moreover have "round (115 / 2 :: real) = 58"
    by (simp add: round_def)
  ultimately show ?thesis
    by (simp add: tieItem_def sampleItem_def)
qed

theorem C7_discount_badge_within_rounding_witness:
  "original_price (sampleItem ''dresses'') = Some 40
   \<and> price (sampleItem ''dresses'') = 30
   \<and> discount_signal (sampleItem ''dresses'') = 1/4
   \<and> discountBadge (sampleItem ''dresses'') = Some 25
   \<and> discount_signal (toFashionItem emptyDbItem) = 0
   \<and> discountBadge (toFashionItem emptyDbItem) = None"
proof -
  have s: "original_price (sampleItem ''dresses'') = Some 40"
    "price (sampleItem ''dresses'') = 30"
    by (simp_all add: sampleItem_def)
  have n: "original_price (toFashionItem emptyDbItem) = None"
    by (simp add: toFashionItem_def)
  from C7_discount_badge_within_rounding[of "sampleItem ''dresses''" 40] s
  have sig: "discount_signal (sampleItem ''dresses'') = 1/4"
    and "\<exists>n. discountBadge (sampleItem ''dresses'') = Some n
           \<and> (1 / 2 ^ 44
                  < \<bar>100 * discount_signal (sampleItem ''dresses'')
                      - (of_int \<lfloor>100 * discount_signal (sampleItem ''dresses'')\<rfloor> + 1/2)\<bar>
                \<longrightarrow> n = round (100 * discount_signal (sampleItem ''dresses'')))"
    by auto
  then have badge: "discountBadge (sampleItem ''dresses'') = Some 25"
    by (auto simp: sig)
  from C7_discount_badge_within_rounding[of "toFashionItem emptyDbItem" 0] n
  have none: "discount_signal (toFashionItem emptyDbItem) = 0"
    "discountBadge (toFashionItem emptyDbItem) = None"
    by simp_all
  from s sig badge none show ?thesis by simp
qed

section \<open>Properties of the Aggregator\<close>

lemma round1_error: "\<bar>round1 x - x\<bar> \<le> 1/20"
proof -
  have "\<bar>real_of_int (round (x * 10)) - x * 10\<bar> \<le> 1/2"
    by (rule of_int_round_abs_le)
  then have "\<bar>(real_of_int (round (x * 10)) - x * 10) / 10\<bar> \<le> 1/20"
    by simp
  moreover have "(real_of_int (round (x * 10)) - x * 10) / 10 = round1 x - x"
    by (simp add: round1_def field_simps)
  ultimately show ?thesis by simp
qed

lemma sum_list_error:
  fixes f g :: "'a \<Rightarrow> real"
  assumes "\<And>x. x \<in> set xs \<Longrightarrow> \<bar>f x - g x\<bar> \<le> c"
  shows "\<bar>(\<Sum>x\<leftarrow>xs. f x) - (\<Sum>x\<leftarrow>xs. g x)\<bar> \<le> real (length xs) * c"
  using assms
proof (induction xs)
  case Nil
  then show ?case by simp
next
  case (Cons a xs)
  have "\<bar>f a - g a\<bar> \<le> c"
    using Cons.prems by simp
  moreover have "\<bar>(\<Sum>x\<leftarrow>xs. f x) - (\<Sum>x\<leftarrow>xs. g x)\<bar> \<le> real (length xs) * c"
    using Cons by simp
  ultimately have "\<bar>(f a + (\<Sum>x\<leftarrow>xs. f x)) - (g a + (\<Sum>x\<leftarrow>xs. g x))\<bar>
      \<le> c + real (length xs) * c"
    by linarith
  then show ?case
    by (simp add: algebra_simps)
qed

lemma groupKeys_distinct: "distinct (groupKeys group_by records)"
  by (simp add: groupKeys_def)

lemma groupKeys_set: "set (groupKeys group_by records) = group_by ` set records"
  by (simp add: groupKeys_def)

text \<open>Before rounding, the shares of the groups add up to 100.\<close>

lemma exact_shares_sum:
  assumes "records \<noteq> []"
  shows "(\<Sum>k\<leftarrow>groupKeys group_by records.
            real (length (filter (\<lambda>r. group_by r = k) records)) / real (length records) * 100)
         = 100"
proof -
  let ?ks = "groupKeys group_by records"
  let ?n = "length records"
  have n: "0 < ?n" using assms by simp
  have sizes: "(\<Sum>k\<leftarrow>?ks. length (filter (\<lambda>r. group_by r = k) records)) = ?n"
    by (rule sum_list_group_sizes) (simp_all add: groupKeys_distinct groupKeys_set)
  have "(\<Sum>k\<leftarrow>?ks. real (length (filter (\<lambda>r. group_by r = k) records)))
        = sum_list (map of_nat (map (\<lambda>k. length (filter (\<lambda>r. group_by r = k) records)) ?ks))"
    by (simp add: comp_def)
  also have "\<dots> = real (\<Sum>k\<leftarrow>?ks. length (filter (\<lambda>r. group_by r = k) records))"
    by (rule sum_list_of_nat)
  finally have c: "(\<Sum>k\<leftarrow>?ks. real (length (filter (\<lambda>r. group_by r = k) records))) = real ?n"
    by (simp only: sizes)
  have "(\<Sum>k\<leftarrow>?ks. real (length (filter (\<lambda>r. group_by r = k) records)) / real ?n * 100)
        = (\<Sum>k\<leftarrow>?ks. real (length (filter (\<lambda>r. group_by r = k) records)) * (100 / real ?n))"
    by (simp add: field_simps)
  also have "\<dots> = (\<Sum>k\<leftarrow>?ks. real (length (filter (\<lambda>r. group_by r = k) records))) * (100 / real ?n)"
    by (rule sum_list_mult_const)
  also have "\<dots> = 100"
    using n by (simp add: c)
  finally show ?thesis .
qed

text \<open>
  C5, amended. For every non-empty collection and grouping key, the aggregates are
  those of the distinct keys, each with the number of its members as count and
  with \<open>count / total \<times> 100\<close> rounded to one decimal as percentage; the percentages
  add up to 100 within 0.05 times the number of groups.
\<close>

theorem C5_percentages_sum_within_rounding:
  assumes "records \<noteq> []"
  shows "distinct (map agg_key (aggregate group_by records))
     \<and> set (map agg_key (aggregate group_by records)) = group_by ` set records
     \<and> (\<forall>a \<in> set (aggregate group_by records).
           agg_count a = length (filter (\<lambda>r. group_by r = agg_key a) records)
         \<and> agg_percentage a = round1 (real (agg_count a) / real (length records) * 100))
     \<and> \<bar>(\<Sum>a\<leftarrow>aggregate group_by records. agg_percentage a) - 100\<bar>
         \<le> real (length (aggregate group_by records)) / 20"
proof -
  let ?ks = "groupKeys group_by records"
  let ?share = "\<lambda>k. real (length (filter (\<lambda>r. group_by r = k) records)) / real (length records) * 100"
  have keys: "map agg_key (aggregate group_by records) = ?ks"
    by (simp add: aggregate_def aggregateOf_def Let_def comp_def)
  have members: "agg_count a = length (filter (\<lambda>r. group_by r = agg_key a) records)
         \<and> agg_percentage a = round1 (real (agg_count a) / real (length records) * 100)"
    if "a \<in> set (aggregate group_by records)" for a
    using that by (auto simp: aggregate_def aggregateOf_def Let_def)
  have pct: "map agg_percentage (aggregate group_by records) = map (\<lambda>k. round1 (?share k)) ?ks"
    by (simp add: aggregate_def aggregateOf_def Let_def comp_def)
  have "\<bar>(\<Sum>k\<leftarrow>?ks. round1 (?share k)) - (\<Sum>k\<leftarrow>?ks. ?share k)\<bar> \<le> real (length ?ks) * (1/20)"
    by (rule sum_list_error) (rule round1_error)
  then have "\<bar>(\<Sum>k\<leftarrow>?ks. round1 (?share k)) - 100\<bar> \<le> real (length ?ks) / 20"
    unfolding exact_shares_sum[OF assms] by simp
  moreover have "length (aggregate group_by records) = length ?ks"
    by (simp add: aggregate_def)
  ultimately have total: "\<bar>(\<Sum>a\<leftarrow>aggregate group_by records. agg_percentage a) - 100\<bar>
         \<le> real (length (aggregate group_by records)) / 20"
    by (simp add: pct)
  show ?thesis
    using keys groupKeys_distinct[of group_by records] groupKeys_set[of group_by records]
      members total by simp
qed

lemma aggregate_sixCategories:
  "map agg_percentage (aggregate category sixCategories)
     = [167/10, 167/10, 167/10, 167/10, 167/10, 167/10]"
  by (simp add: aggregate_def aggregateOf_def groupKeys_def sixCategories_def sampleItem_def
      round1_def round_def Let_def)

text \<open>
  Six records in six categories: each percentage is 16.7, and the six add up to
  100.2, which is farther than 0.1 from 100.
\<close>

theorem C5_sum_within_tenth_counterexample:
  "(\<Sum>a\<leftarrow>aggregate category sixCategories. agg_percentage a) = 1002/10
   \<and> \<not> \<bar>(\<Sum>a\<leftarrow>aggregate category sixCategories. agg_percentage a) - 100\<bar> \<le> 1/10"
  by (simp add: aggregate_sixCategories)

theorem C5_percentages_sum_within_rounding_witness:
  "sixCategories \<noteq> []
   \<and> length (aggregate category sixCategories) = 6
   \<and> \<bar>(\<Sum>a\<leftarrow>aggregate category sixCategories. agg_percentage a) - 100\<bar> \<le> 6/20"
proof -
  have ne: "sixCategories \<noteq> []"
    by (simp add: sixCategories_def)
  have len: "length (aggregate category sixCategories) = 6"
    by (simp add: aggregate_def groupKeys_def sixCategories_def sampleItem_def)
  show ?thesis
    using ne len C5_percentages_sum_within_rounding[OF ne, of category] by simp
qed

end
